theory Spec2Isabelle
  imports Main "HOL-Library.Word"
begin

unbundle bit_operations_syntax

section \<open>Data model\<close>

text \<open>
  The package targets Linux on a 64-bit platform: Go's \<open>uintptr\<close>, \<open>uint\<close> and \<open>int\<close> are
  64-bit machine integers, so \<open>+\<close> and \<open>-\<close> below wrap around as they do in the source.
\<close>

type_synonym uintptr = "64 word"
type_synonym uint = "64 word"
type_synonym byte = "8 word"

text \<open>
  Modelled from the spec: the declaration of the permission type \<open>Access\<close> and of its
  constants \<open>None\<close>, \<open>Readable\<close>, \<open>Writable\<close>, \<open>Executable\<close> is not among the sources. The
  spec calls it a bitmask of independent Read/Write/Execute bits; the constant for "no
  permission" is the zero value. No theorem below depends on the numeric value chosen for a
  bit.
\<close>

type_synonym Access = "64 word"

definition None_Access :: Access where
  "None_Access = 0"

definition Readable :: Access where
  "Readable = 1"

definition Writable :: Access where
  "Writable = 2"

definition Executable :: Access where
  "Executable = 4"

text \<open>
  Modelled from the spec: the declaration of \<open>MemoryRegion\<close> is not among the sources. The
  field names are those of the composite literals in \<open>nextMemoryRegion\<close>; the spec gives
  the fields as base address, size, permission bitmask and kind tag.
\<close>

record MemoryRegion =
  Address :: uintptr
  Size :: uint
  Access :: Access
  Kind :: string

text \<open>\<open>MemoryRegion{}\<close>, the zero value of the struct.\<close>

definition zeroRegion :: MemoryRegion where
  "zeroRegion = \<lparr>Address = 0, Size = 0, Access = 0, Kind = ''''\<rparr>"

text \<open>
  Modelled from the spec: the declaration of \<open>NoRegionAvailable\<close> is not among the sources.
  The spec describes it as the reserved sentinel "no region available" (size 0, address 0).
\<close>

definition NoRegionAvailable :: MemoryRegion where
  "NoRegionAvailable = \<lparr>Address = 0, Size = 0, Access = 0, Kind = ''''\<rparr>"

text \<open>
  Go's \<open>error\<close> values. The two messages built with \<open>fmt.Errorf\<close> in the enumerators and the
  two of \<open>copyMemory\<close> have a constructor each, carrying the formatted arguments; every
  error that comes from the operating system or from a helper of package \<open>common\<close> is an
  \<open>ExternalError\<close>.
\<close>

datatype error =
    ExternalError string
  | UnrecognisedMapsLine string
  | UnreadableMemory string
  | ErrorWhileReading nat uintptr error
  | CouldNotReadEntireBuffer

text \<open>A call either returns its results or panics (an index out of range).\<close>

datatype 'a outcome = Returned 'a | Panicked

type_synonym region_result = "MemoryRegion \<times> error option \<times> error list"

text \<open>
  What \<open>os.Open\<close> and \<open>bufio.Scanner\<close> deliver for the maps file of the process: either the
  error of \<open>os.Open\<close>, or the lines that \<open>scanner.Scan\<close> yields before it returns false,
  together with \<open>scanner.Err()\<close> (nil at a clean end of file).
\<close>

type_synonym maps_file = "error + (string list \<times> error option)"

section \<open>The region enumerators\<close>

text \<open>
  \<open>common.SplitMapsFileEntry\<close> and \<open>common.ParseMapsFileMemoryLimits\<close> are not among the
  sources: the enumerators take them as the parameters \<open>splitEntry\<close> and \<open>parseLimits\<close>.
\<close>

type_synonym split_fn = "string \<Rightarrow> string list"
type_synonym limits_fn = "string \<Rightarrow> error + (uintptr \<times> uintptr)"

text \<open>The \<open>for scanner.Scan()\<close> loop of \<open>nextMemoryRegion\<close> and the return after it.\<close>

fun nextMemoryRegion_scan ::
  "split_fn \<Rightarrow> limits_fn \<Rightarrow> uintptr \<Rightarrow> MemoryRegion \<Rightarrow> error list \<Rightarrow> string list
    \<Rightarrow> region_result outcome" where
  "nextMemoryRegion_scan splitEntry parseLimits address region softerrors [] =
     Returned (NoRegionAvailable, None, softerrors)"
| "nextMemoryRegion_scan splitEntry parseLimits address region softerrors (line # rest) =
     (let items = splitEntry line in
      if length items \<noteq> 6 then
        Returned (region, Some (UnrecognisedMapsLine line), softerrors)
      else
        case parseLimits (items ! 0) of
          Inl err \<Rightarrow> Returned (region, Some err, softerrors)
        | Inr (start, end) \<Rightarrow>
            if items ! 5 = ''[vsyscall]'' then
              nextMemoryRegion_scan splitEntry parseLimits address region softerrors rest
            else if end \<le> address then
              nextMemoryRegion_scan splitEntry parseLimits address region softerrors rest
            else if length (items ! 1) < 3 then Panicked
            else
              let access = None_Access;
                  access = (if items ! 1 ! 0 \<noteq> CHR ''-'' then access + Readable else access);
                  access = (if items ! 1 ! 1 \<noteq> CHR ''-'' then access + Writable else access);
                  access = (if items ! 1 ! 2 \<noteq> CHR ''-'' then access + Executable else access)
              in Returned (\<lparr>Address = start, Size = end - start, Access = access,
                             Kind = items ! 5\<rparr>, None, softerrors))"

definition nextMemoryRegion ::
  "split_fn \<Rightarrow> limits_fn \<Rightarrow> maps_file \<Rightarrow> uintptr \<Rightarrow> region_result outcome" where
  "nextMemoryRegion splitEntry parseLimits mapsFile address =
     (case mapsFile of
        Inl harderror \<Rightarrow> Returned (zeroRegion, Some harderror, [])
      | Inr (lines, scanErr) \<Rightarrow>
          nextMemoryRegion_scan splitEntry parseLimits address zeroRegion [] lines)"

text \<open>
  The loop of \<open>nextReadableMemoryRegion\<close> and the code after it; \<open>scanErr\<close> is
  \<open>scanner.Err()\<close>.
\<close>

fun nextReadableMemoryRegion_scan ::
  "split_fn \<Rightarrow> limits_fn \<Rightarrow> error option \<Rightarrow> uintptr \<Rightarrow> MemoryRegion \<Rightarrow> error list
    \<Rightarrow> string list \<Rightarrow> region_result outcome" where
  "nextReadableMemoryRegion_scan splitEntry parseLimits scanErr address region softerrors [] =
     (case scanErr of
        Some err \<Rightarrow> Returned (NoRegionAvailable, Some err, softerrors)
      | None \<Rightarrow>
          if Address region > 0 then Returned (region, None, softerrors)
          else Returned (NoRegionAvailable, None, softerrors))"
| "nextReadableMemoryRegion_scan splitEntry parseLimits scanErr address region softerrors
       (line # rest) =
     (let items = splitEntry line in
      if length items \<noteq> 6 then
        Returned (region, Some (UnrecognisedMapsLine line), softerrors)
      else
        case parseLimits (items ! 0) of
          Inl err \<Rightarrow> Returned (region, Some err, softerrors)
        | Inr (start, end) \<Rightarrow>
            if end \<le> address then
              nextReadableMemoryRegion_scan splitEntry parseLimits scanErr address region
                softerrors rest
            else if items ! 5 = ''[vsyscall]'' then
              nextReadableMemoryRegion_scan splitEntry parseLimits scanErr address region
                softerrors rest
            else if items ! 1 = [] then Panicked
            else if items ! 1 ! 0 = CHR ''-'' then
              (if Address region \<noteq> 0 then Returned (region, None, softerrors)
               else
                 nextReadableMemoryRegion_scan splitEntry parseLimits scanErr address region
                   (softerrors @ [UnreadableMemory (items ! 0)]) rest)
            else
              let size = end - start in
              if Address region = 0 then
                nextReadableMemoryRegion_scan splitEntry parseLimits scanErr address
                  \<lparr>Address = start, Size = size, Access = 0, Kind = ''''\<rparr> softerrors rest
              else if Address region + Size region = start then
                nextReadableMemoryRegion_scan splitEntry parseLimits scanErr address
                  (region\<lparr>Size := Size region + size\<rparr>) softerrors rest
              else Returned (region, None, softerrors))"

definition nextReadableMemoryRegion ::
  "split_fn \<Rightarrow> limits_fn \<Rightarrow> maps_file \<Rightarrow> uintptr \<Rightarrow> region_result outcome" where
  "nextReadableMemoryRegion splitEntry parseLimits mapsFile address =
     (case mapsFile of
        Inl harderror \<Rightarrow> Returned (zeroRegion, Some harderror, [])
      | Inr (lines, scanErr) \<Rightarrow>
          nextReadableMemoryRegion_scan splitEntry parseLimits scanErr address zeroRegion []
            lines)"

section \<open>The memory reader\<close>

text \<open>
  What \<open>os.Open\<close> delivers for the mem file of the process: its error, or a file whose
  \<open>ReadAt\<close>, asked for \<open>n\<close> bytes at a signed 64-bit offset, delivers the bytes it read (their
  number is \<open>bytes_read\<close>) and its error. \<open>ReadAt\<close> writes the bytes it read over the front
  of the buffer and leaves the rest of the buffer as it was.
\<close>

type_synonym mem_file = "error + (nat \<Rightarrow> int \<Rightarrow> byte list \<times> error option)"

definition copyMemory ::
  "mem_file \<Rightarrow> uintptr \<Rightarrow> byte list \<Rightarrow> (error option \<times> error list) \<times> byte list" where
  "copyMemory memFile address buffer =
     (case memFile of
        Inl harderror \<Rightarrow>
          ((Some (ErrorWhileReading (length buffer) address harderror), []), buffer)
      | Inr ReadAt \<Rightarrow>
          (case ReadAt (length buffer) (sint address) of (bytes, harderror) \<Rightarrow>
            let bytes_read = length bytes;
                buffer' = bytes @ drop bytes_read buffer
            in (case harderror of
                  Some err \<Rightarrow>
                    ((Some (ErrorWhileReading (length buffer) address err), []), buffer')
                | None \<Rightarrow>
                    (if bytes_read \<noteq> length buffer then
                       ((Some CouldNotReadEntireBuffer, []), buffer')
                     else ((None, []), buffer')))))"

section \<open>A concrete listing format\<close>

text \<open>
  Modelled from the spec: \<open>common.SplitMapsFileEntry\<close> and
  \<open>common.ParseMapsFileMemoryLimits\<close> are not among the sources. The spec describes a
  record of the listing as an address range (\<open>start-end\<close> in hexadecimal), a permission
  string and a trailing kind tag, split into six fields. The two functions below read that
  format (the fields are separated by single spaces, the sixth field is what remains after
  the fifth space, without its leading spaces). Every general theorem of this theory holds
  for any splitter and any parser; these two serve to run the enumerators on concrete
  listings.
\<close>

fun splitFields :: "nat \<Rightarrow> string \<Rightarrow> string list" where
  "splitFields 0 entry = [dropWhile (\<lambda>c. c = CHR '' '') entry]"
| "splitFields (Suc n) entry =
     (if CHR '' '' \<in> set entry then
        takeWhile (\<lambda>c. c \<noteq> CHR '' '') entry
          # splitFields n (tl (dropWhile (\<lambda>c. c \<noteq> CHR '' '') entry))
      else [entry, ''''])"

definition SplitMapsFileEntry :: "string \<Rightarrow> string list" where
  "SplitMapsFileEntry entry = splitFields 5 entry"

definition hexDigit :: "char \<Rightarrow> nat option" where
  "hexDigit c =
     (let n = (of_char c :: nat) in
      if 48 \<le> n \<and> n \<le> 57 then Some (n - 48)
      else if 97 \<le> n \<and> n \<le> 102 then Some (n - 87)
      else if 65 \<le> n \<and> n \<le> 70 then Some (n - 55)
      else None)"

fun parseHex :: "nat \<Rightarrow> string \<Rightarrow> nat option" where
  "parseHex acc [] = Some acc"
| "parseHex acc (c # cs) =
     (case hexDigit c of None \<Rightarrow> None | Some d \<Rightarrow> parseHex (16 * acc + d) cs)"

definition parseUintptr :: "string \<Rightarrow> error + uintptr" where
  "parseUintptr s =
     (if s = [] then Inl (ExternalError ''invalid syntax'')
      else case parseHex 0 s of
             None \<Rightarrow> Inl (ExternalError ''invalid syntax'')
           | Some n \<Rightarrow>
               if n < 2 ^ 64 then Inr (of_nat n)
               else Inl (ExternalError ''value out of range''))"

definition ParseMapsFileMemoryLimits :: "string \<Rightarrow> error + (uintptr \<times> uintptr)" where
  "ParseMapsFileMemoryLimits limits =
     (if CHR ''-'' \<notin> set limits then Inl (ExternalError ''invalid syntax'')
      else
        case parseUintptr (takeWhile (\<lambda>c. c \<noteq> CHR ''-'') limits) of
          Inl err \<Rightarrow> Inl err
        | Inr start \<Rightarrow>
            (case parseUintptr (tl (dropWhile (\<lambda>c. c \<noteq> CHR ''-'') limits)) of
               Inl err \<Rightarrow> Inl err
             | Inr end \<Rightarrow> Inr (start, end)))"

section \<open>Reading a record of the listing\<close>

text \<open>
  The fields of a record as the enumerators use them: \<open>items[0]\<close> is the address range,
  \<open>items[1]\<close> the permission string, \<open>items[5]\<close> the kind tag.
\<close>

definition rangeOf :: "split_fn \<Rightarrow> string \<Rightarrow> string" where
  "rangeOf splitEntry line = splitEntry line ! 0"

definition permsOf :: "split_fn \<Rightarrow> string \<Rightarrow> string" where
  "permsOf splitEntry line = splitEntry line ! 1"

definition kindOf :: "split_fn \<Rightarrow> string \<Rightarrow> string" where
  "kindOf splitEntry line = splitEntry line ! 5"

definition startOf :: "split_fn \<Rightarrow> limits_fn \<Rightarrow> string \<Rightarrow> uintptr" where
  "startOf splitEntry parseLimits line =
     (case parseLimits (rangeOf splitEntry line) of Inr (start, end) \<Rightarrow> start | Inl err \<Rightarrow> 0)"

definition endOf :: "split_fn \<Rightarrow> limits_fn \<Rightarrow> string \<Rightarrow> uintptr" where
  "endOf splitEntry parseLimits line =
     (case parseLimits (rangeOf splitEntry line) of Inr (start, end) \<Rightarrow> end | Inl err \<Rightarrow> 0)"

definition sizeOf :: "split_fn \<Rightarrow> limits_fn \<Rightarrow> string \<Rightarrow> uint" where
  "sizeOf splitEntry parseLimits line =
     endOf splitEntry parseLimits line - startOf splitEntry parseLimits line"

text \<open>
  A record is well formed when it splits into six fields, its address range parses, and its
  permission string has the three characters that the enumerators index.
\<close>

definition wellFormed :: "split_fn \<Rightarrow> limits_fn \<Rightarrow> string \<Rightarrow> bool" where
  "wellFormed splitEntry parseLimits line =
     (length (splitEntry line) = 6
      \<and> (case parseLimits (rangeOf splitEntry line) of Inr l \<Rightarrow> True | Inl err \<Rightarrow> False)
      \<and> 3 \<le> length (permsOf splitEntry line))"

definition isVsyscall :: "split_fn \<Rightarrow> string \<Rightarrow> bool" where
  "isVsyscall splitEntry line = (kindOf splitEntry line = ''[vsyscall]'')"

definition isReadable :: "split_fn \<Rightarrow> string \<Rightarrow> bool" where
  "isReadable splitEntry line = (permsOf splitEntry line ! 0 \<noteq> CHR ''-'')"

text \<open>
  The records that both enumerators pass over whatever their permissions: those that end at
  or below the address, and the \<open>[vsyscall]\<close> page.
\<close>

definition passedOver :: "split_fn \<Rightarrow> limits_fn \<Rightarrow> uintptr \<Rightarrow> string \<Rightarrow> bool" where
  "passedOver splitEntry parseLimits address line =
     (endOf splitEntry parseLimits line \<le> address \<or> isVsyscall splitEntry line)"

text \<open>The permission bits of a permission string.\<close>

definition permissionBits :: "string \<Rightarrow> Access" where
  "permissionBits perms =
     None_Access
       + (if perms ! 0 \<noteq> CHR ''-'' then Readable else 0)
       + (if perms ! 1 \<noteq> CHR ''-'' then Writable else 0)
       + (if perms ! 2 \<noteq> CHR ''-'' then Executable else 0)"

text \<open>The region that \<open>nextMemoryRegion\<close> builds from a record.\<close>

definition entryRegion :: "split_fn \<Rightarrow> limits_fn \<Rightarrow> string \<Rightarrow> MemoryRegion" where
  "entryRegion splitEntry parseLimits line =
     \<lparr>Address = startOf splitEntry parseLimits line,
      Size = sizeOf splitEntry parseLimits line,
      Access = permissionBits (permsOf splitEntry line),
      Kind = kindOf splitEntry line\<rparr>"

section \<open>The merged region, in the words of the specification\<close>

text \<open>
  The records that \<open>nextReadableMemoryRegion\<close> looks at: those that are not passed over.
\<close>

definition consideredRecords ::
  "split_fn \<Rightarrow> limits_fn \<Rightarrow> uintptr \<Rightarrow> string list \<Rightarrow> string list" where
  "consideredRecords splitEntry parseLimits address lines =
     filter (\<lambda>line. \<not> passedOver splitEntry parseLimits address line) lines"

text \<open>
  The records that extend a region whose end address is \<open>accEnd\<close>: each following record that
  is readable and starts at the end of what has been accumulated, up to the first record
  that is unreadable or not contiguous.
\<close>

fun extendRun :: "split_fn \<Rightarrow> limits_fn \<Rightarrow> uintptr \<Rightarrow> string list \<Rightarrow> string list" where
  "extendRun splitEntry parseLimits accEnd [] = []"
| "extendRun splitEntry parseLimits accEnd (line # rest) =
     (if isReadable splitEntry line \<and> startOf splitEntry parseLimits line = accEnd then
        line # extendRun splitEntry parseLimits
                 (accEnd + sizeOf splitEntry parseLimits line) rest
      else [])"

text \<open>
  The region of the specification, over the records that the enumerator looks at: it starts
  at the first readable record, is extended by the run that follows it, and its size is the
  sum of the sizes of the merged records. There is none when no record is readable.
\<close>

definition mergedRegion_spec ::
  "split_fn \<Rightarrow> limits_fn \<Rightarrow> string list \<Rightarrow> MemoryRegion option" where
  "mergedRegion_spec splitEntry parseLimits records =
     (case dropWhile (\<lambda>line. \<not> isReadable splitEntry line) records of
        [] \<Rightarrow> None
      | first # following \<Rightarrow>
          Some \<lparr>Address = startOf splitEntry parseLimits first,
                Size = sum_list (map (sizeOf splitEntry parseLimits)
                  (first # extendRun splitEntry parseLimits
                     (startOf splitEntry parseLimits first
                        + sizeOf splitEntry parseLimits first) following)),
                Access = 0, Kind = ''''\<rparr>)"

section \<open>Enumerations\<close>

text \<open>
  A listing is sorted when its records are well formed, each is a non-empty range, and each
  starts at or above the end of the one before it (\<open>lo\<close> is the end of the record before the
  first): the start addresses increase strictly and the ranges are pairwise disjoint.
\<close>

fun sortedListing :: "split_fn \<Rightarrow> limits_fn \<Rightarrow> uintptr \<Rightarrow> string list \<Rightarrow> bool" where
  "sortedListing splitEntry parseLimits lo [] = True"
| "sortedListing splitEntry parseLimits lo (line # rest) =
     (wellFormed splitEntry parseLimits line
      \<and> lo \<le> startOf splitEntry parseLimits line
      \<and> startOf splitEntry parseLimits line < endOf splitEntry parseLimits line
      \<and> sortedListing splitEntry parseLimits (endOf splitEntry parseLimits line) rest)"

text \<open>
  An enumeration from \<open>address\<close>: the regions that successive calls of an enumerator return,
  none of them the sentinel, each call after the first at the end address (base plus size)
  of the region returned before it.
\<close>

fun enumeration ::
  "(uintptr \<Rightarrow> region_result outcome) \<Rightarrow> uintptr \<Rightarrow> MemoryRegion list \<Rightarrow> bool" where
  "enumeration nextCall address [] = True"
| "enumeration nextCall address (r # rs) =
     (case nextCall address of
        Returned (r', harderror, softerrors) \<Rightarrow>
          r' = r \<and> r \<noteq> NoRegionAvailable \<and> enumeration nextCall (Address r + Size r) rs
      | Panicked \<Rightarrow> False)"

text \<open>
  A region spans records of a listing, seen from \<open>address\<close>, when it is a non-empty range that
  does not wrap around, begins where a record that is not passed over begins, and ends
  where a record ends.
\<close>

definition spansRecords ::
  "split_fn \<Rightarrow> limits_fn \<Rightarrow> uintptr \<Rightarrow> string list \<Rightarrow> MemoryRegion \<Rightarrow> bool" where
  "spansRecords splitEntry parseLimits address lines r =
     (Address r < Address r + Size r
      \<and> (\<exists>l\<in>set lines. \<not> passedOver splitEntry parseLimits address l
            \<and> Address r = startOf splitEntry parseLimits l)
      \<and> (\<exists>l\<in>set lines. Address r + Size r = endOf splitEntry parseLimits l))"

section \<open>One step of the scans\<close>

lemma nextMemoryRegion_scan_passedOver:
  assumes "wellFormed sp pl line" and "passedOver sp pl a line"
  shows "nextMemoryRegion_scan sp pl a region se (line # rest)
           = nextMemoryRegion_scan sp pl a region se rest"
  using assms
  by (auto simp: wellFormed_def passedOver_def isVsyscall_def kindOf_def rangeOf_def
      endOf_def Let_def split: sum.splits)

lemma nextMemoryRegion_scan_found:
  assumes "wellFormed sp pl line" and "\<not> passedOver sp pl a line"
  shows "nextMemoryRegion_scan sp pl a region se (line # rest)
           = Returned (entryRegion sp pl line, None, se)"
  using assms
  by (auto simp: wellFormed_def passedOver_def isVsyscall_def kindOf_def rangeOf_def
      endOf_def startOf_def sizeOf_def permsOf_def entryRegion_def permissionBits_def
      Let_def split: sum.splits)

lemma nextReadableMemoryRegion_scan_passedOver:
  assumes "wellFormed sp pl line" and "passedOver sp pl a line"
  shows "nextReadableMemoryRegion_scan sp pl e a region se (line # rest)
           = nextReadableMemoryRegion_scan sp pl e a region se rest"
  using assms
  by (auto simp: wellFormed_def passedOver_def isVsyscall_def kindOf_def rangeOf_def
      endOf_def Let_def split: sum.splits)

lemma nextReadableMemoryRegion_scan_unreadable:
  assumes "wellFormed sp pl line" and "\<not> passedOver sp pl a line"
    and "\<not> isReadable sp line"
  shows "nextReadableMemoryRegion_scan sp pl e a region se (line # rest)
           = (if Address region \<noteq> 0 then Returned (region, None, se)
              else nextReadableMemoryRegion_scan sp pl e a region
                     (se @ [UnreadableMemory (rangeOf sp line)]) rest)"
  using assms
  by (auto simp: wellFormed_def passedOver_def isVsyscall_def isReadable_def kindOf_def
      rangeOf_def endOf_def permsOf_def Let_def split: sum.splits)

lemma nextReadableMemoryRegion_scan_readable:
  assumes "wellFormed sp pl line" and "\<not> passedOver sp pl a line"
    and "isReadable sp line"
  shows "nextReadableMemoryRegion_scan sp pl e a region se (line # rest)
           = (if Address region = 0 then
                nextReadableMemoryRegion_scan sp pl e a
                  \<lparr>Address = startOf sp pl line, Size = sizeOf sp pl line, Access = 0,
                   Kind = ''''\<rparr> se rest
              else if Address region + Size region = startOf sp pl line then
                nextReadableMemoryRegion_scan sp pl e a
                  (region\<lparr>Size := Size region + sizeOf sp pl line\<rparr>) se rest
              else Returned (region, None, se))"
  using assms
  by (auto simp: wellFormed_def passedOver_def isVsyscall_def isReadable_def kindOf_def
      rangeOf_def endOf_def startOf_def sizeOf_def permsOf_def Let_def split: sum.splits)

text \<open>
  What one pass through the loop body of \<open>nextReadableMemoryRegion\<close> can do, whatever the
  record: return the region with a fatal error, panic, return the region, or go on with the
  rest of the listing with the same region, a fresh one or an extended one.
\<close>

lemma nextReadableMemoryRegion_scan_Cons_cases:
  assumes "nextReadableMemoryRegion_scan sp pl e a region se (line # rest) = X"
  obtains (Fatal) err where "X = Returned (region, Some err, se)"
  | (Panic) "X = Panicked"
  | (Finish) "X = Returned (region, None, se)"
  | (Skip) se2 where "X = nextReadableMemoryRegion_scan sp pl e a region se2 rest"
  | (Begin) s z where
      "X = nextReadableMemoryRegion_scan sp pl e a
             \<lparr>Address = s, Size = z, Access = 0, Kind = ''''\<rparr> se rest"
  | (Extend) z where
      "X = nextReadableMemoryRegion_scan sp pl e a (region\<lparr>Size := z\<rparr>) se rest"
  using assms
  by (simp add: Let_def split: sum.splits if_splits prod.splits) blast+

lemma nextReadableMemoryRegion_scan_zero_access_kind:
  "Access region = 0 \<Longrightarrow> Kind region = '''' \<Longrightarrow>
   nextReadableMemoryRegion_scan sp pl e a region se ls = Returned (r, he, se') \<Longrightarrow>
   Access r = 0 \<and> Kind r = ''''"
proof (induction ls arbitrary: region se)
  case Nil
  then show ?case
    by (auto simp: NoRegionAvailable_def split: option.splits if_splits)
next
  case (Cons line rest)
  from Cons.prems(3) show ?case
  proof (cases rule: nextReadableMemoryRegion_scan_Cons_cases)
    case (Fatal err)
    with Cons.prems show ?thesis by simp
  next
    case Panic
    then show ?thesis by simp
  next
    case Finish
    with Cons.prems show ?thesis by simp
  next
    case (Skip se2)
    from Cons.IH [OF Cons.prems(1,2) Skip [symmetric]] show ?thesis .
  next
    case (Begin s z)
    from Cons.IH [OF _ _ Begin [symmetric]] show ?thesis by simp
  next
    case (Extend z)
    from Cons.IH [OF _ _ Extend [symmetric]] Cons.prems(1,2) show ?thesis by simp
  qed
qed

section \<open>Sample records\<close>

lemma split_text:
  "SplitMapsFileEntry ''1000-2000 r-xp 00000000 08:01 1311 /bin/cat''
     = [''1000-2000'', ''r-xp'', ''00000000'', ''08:01'', ''1311'', ''/bin/cat'']"
  by code_simp

lemma split_data:
  "SplitMapsFileEntry ''2000-3000 rw-p 00001000 08:01 1311 /bin/cat''
     = [''2000-3000'', ''rw-p'', ''00001000'', ''08:01'', ''1311'', ''/bin/cat'']"
  by code_simp

lemma split_guard:
  "SplitMapsFileEntry ''3000-4000 ---p 00000000 00:00 0 ''
     = [''3000-4000'', ''---p'', ''00000000'', ''00:00'', ''0'', '''']"
  by code_simp

lemma split_heap:
  "SplitMapsFileEntry ''5000-6000 rw-p 00000000 00:00 0 [heap]''
     = [''5000-6000'', ''rw-p'', ''00000000'', ''00:00'', ''0'', ''[heap]'']"
  by code_simp

lemma split_zero_page:
  "SplitMapsFileEntry ''0-1000 r--p 00000000 00:00 0 ''
     = [''0-1000'', ''r--p'', ''00000000'', ''00:00'', ''0'', '''']"
  by code_simp

lemma split_vsyscall:
  "SplitMapsFileEntry ''ffffffffff600000-ffffffffff601000 --xp 00000000 00:00 0 [vsyscall]''
     = [''ffffffffff600000-ffffffffff601000'', ''--xp'', ''00000000'', ''00:00'', ''0'',
        ''[vsyscall]'']"
  by code_simp

lemma split_vsyscall_readable:
  "SplitMapsFileEntry ''ffffffffff600000-ffffffffff601000 r-xp 00000000 00:00 0 [vsyscall]''
     = [''ffffffffff600000-ffffffffff601000'', ''r-xp'', ''00000000'', ''00:00'', ''0'',
        ''[vsyscall]'']"
  by code_simp

lemma split_garbage:
  "SplitMapsFileEntry ''not a maps line'' = [''not'', ''a'', ''maps'', ''line'', '''']"
  by code_simp

lemma limits_text: "ParseMapsFileMemoryLimits ''1000-2000'' = Inr (0x1000, 0x2000)"
  by (simp add: ParseMapsFileMemoryLimits_def parseUintptr_def hexDigit_def)

lemma limits_data: "ParseMapsFileMemoryLimits ''2000-3000'' = Inr (0x2000, 0x3000)"
  by (simp add: ParseMapsFileMemoryLimits_def parseUintptr_def hexDigit_def)

lemma limits_guard: "ParseMapsFileMemoryLimits ''3000-4000'' = Inr (0x3000, 0x4000)"
  by (simp add: ParseMapsFileMemoryLimits_def parseUintptr_def hexDigit_def)

lemma limits_heap: "ParseMapsFileMemoryLimits ''5000-6000'' = Inr (0x5000, 0x6000)"
  by (simp add: ParseMapsFileMemoryLimits_def parseUintptr_def hexDigit_def)

lemma limits_zero_page: "ParseMapsFileMemoryLimits ''0-1000'' = Inr (0, 0x1000)"
  by (simp add: ParseMapsFileMemoryLimits_def parseUintptr_def hexDigit_def)

lemma limits_vsyscall:
  "ParseMapsFileMemoryLimits ''ffffffffff600000-ffffffffff601000''
     = Inr (0xffffffffff600000, 0xffffffffff601000)"
  by (simp add: ParseMapsFileMemoryLimits_def parseUintptr_def hexDigit_def)

lemmas sample_records =
  split_text split_data split_guard split_heap split_zero_page split_vsyscall
  split_vsyscall_readable split_garbage
  limits_text limits_data limits_guard limits_heap limits_zero_page limits_vsyscall

lemmas record_defs =
  wellFormed_def passedOver_def isVsyscall_def isReadable_def rangeOf_def permsOf_def
  kindOf_def startOf_def endOf_def sizeOf_def

section \<open>Malformed records\<close>

text \<open>
  Claim C6. Whenever either scan reads a record that does not split into exactly six
  fields, it returns at once: the fatal error names the unrecognised line, the record is not
  skipped, and the softerrors are those gathered so far (none is added).
\<close>

theorem malformed_record_is_fatal:
  assumes "length (splitEntry line) \<noteq> 6"
  shows "nextMemoryRegion_scan splitEntry parseLimits address region softerrors (line # rest)
           = Returned (region, Some (UnrecognisedMapsLine line), softerrors)
       \<and> nextReadableMemoryRegion_scan splitEntry parseLimits scanErr address region softerrors
             (line # rest)
           = Returned (region, Some (UnrecognisedMapsLine line), softerrors)"
  using assms by simp

theorem malformed_record_is_fatal_witness:
  "length (SplitMapsFileEntry ''not a maps line'') \<noteq> 6
   \<and> nextMemoryRegion SplitMapsFileEntry ParseMapsFileMemoryLimits
        (Inr ([''not a maps line''], None)) 0
       = Returned (zeroRegion, Some (UnrecognisedMapsLine ''not a maps line''), [])
   \<and> nextReadableMemoryRegion SplitMapsFileEntry ParseMapsFileMemoryLimits
        (Inr ([''not a maps line''], None)) 0
       = Returned (zeroRegion, Some (UnrecognisedMapsLine ''not a maps line''), [])"
proof -
  have h: "length (SplitMapsFileEntry ''not a maps line'') \<noteq> 6"
    by (simp add: split_garbage)
  from malformed_record_is_fatal [of SplitMapsFileEntry "''not a maps line''"
      ParseMapsFileMemoryLimits 0 zeroRegion "[]" "[]" None, OF h]
  show ?thesis
    using h by (simp only: nextMemoryRegion_def nextReadableMemoryRegion_def sum.case prod.case
        simp_thms)
qed

section \<open>Short reads\<close>

text \<open>
  Claim C7. If the positioned read of \<open>copyMemory\<close> delivers fewer bytes than the buffer
  holds, the call returns a fatal error; and when the call returns no fatal error, the read
  at the target address delivered exactly as many bytes as the buffer holds, without an
  error, and the buffer holds those bytes.
\<close>

theorem copyMemory_fills_buffer_or_fails:
  "(memFile = Inr ReadAt
      \<and> length (fst (ReadAt (length buffer) (sint address))) < length buffer
     \<longrightarrow> fst (fst (copyMemory memFile address buffer)) \<noteq> None)
   \<and> (fst (fst (copyMemory memFile address buffer)) = None
     \<longrightarrow> (\<exists>ReadAt. memFile = Inr ReadAt
           \<and> ReadAt (length buffer) (sint address)
               = (snd (copyMemory memFile address buffer), None)
           \<and> length (snd (copyMemory memFile address buffer)) = length buffer))"
  by (auto simp: copyMemory_def Let_def split: sum.splits prod.splits option.splits if_splits)

theorem copyMemory_fills_buffer_or_fails_witness:
  "length (fst ((\<lambda>n off. ([1, 2], None)) (length [0, 0, 0, 0 :: byte]) (sint (0x1000 :: uintptr))
             :: byte list \<times> error option))
     < length [0, 0, 0, 0 :: byte]
   \<and> copyMemory (Inr (\<lambda>n off. ([1, 2], None))) 0x1000 [0, 0, 0, 0]
       = ((Some CouldNotReadEntireBuffer, []), [1, 2, 0, 0])
   \<and> copyMemory (Inr (\<lambda>n off. (replicate n 7, None))) 0x1000 [0, 0, 0, 0]
       = ((None, []), [7, 7, 7, 7])"
  using copyMemory_fills_buffer_or_fails
          [of "Inr (\<lambda>n off. ([1, 2], None))" "\<lambda>n off. ([1, 2], None)" "[0, 0, 0, 0]" "0x1000"]
        copyMemory_fills_buffer_or_fails
          [of "Inr (\<lambda>n off. (replicate n 7, None))" "\<lambda>n off. (replicate n 7, None)"
              "[0, 0, 0, 0]" "0x1000"]
  by (simp add: copyMemory_def numeral_eq_Suc)

section \<open>The vsyscall page\<close>

text \<open>
  Claim C8, as amended. A \<open>[vsyscall]\<close> record is skipped silently by both scans: the scan
  goes on with the rest of the listing with the region and the softerrors it had, so the
  skip leaves no softerror.
\<close>

theorem vsyscall_skipped_without_softerror:
  assumes "length (splitEntry line) = 6"
    and "parseLimits (splitEntry line ! 0) = Inr (start, end)"
    and "splitEntry line ! 5 = ''[vsyscall]''"
  shows "nextMemoryRegion_scan splitEntry parseLimits address region softerrors (line # rest)
           = nextMemoryRegion_scan splitEntry parseLimits address region softerrors rest
       \<and> nextReadableMemoryRegion_scan splitEntry parseLimits scanErr address region softerrors
             (line # rest)
           = nextReadableMemoryRegion_scan splitEntry parseLimits scanErr address region
               softerrors rest"
  using assms by (simp add: Let_def)

theorem vsyscall_skipped_without_softerror_witness:
  "length (SplitMapsFileEntry
       ''ffffffffff600000-ffffffffff601000 --xp 00000000 00:00 0 [vsyscall]'') = 6
   \<and> ParseMapsFileMemoryLimits (SplitMapsFileEntry
       ''ffffffffff600000-ffffffffff601000 --xp 00000000 00:00 0 [vsyscall]'' ! 0)
       = Inr (0xffffffffff600000, 0xffffffffff601000)
   \<and> SplitMapsFileEntry
       ''ffffffffff600000-ffffffffff601000 --xp 00000000 00:00 0 [vsyscall]'' ! 5
       = ''[vsyscall]''
   \<and> nextReadableMemoryRegion_scan SplitMapsFileEntry ParseMapsFileMemoryLimits None 0
        zeroRegion []
        [''ffffffffff600000-ffffffffff601000 --xp 00000000 00:00 0 [vsyscall]'',
         ''3000-4000 ---p 00000000 00:00 0 '']
       = nextReadableMemoryRegion_scan SplitMapsFileEntry ParseMapsFileMemoryLimits None 0
           zeroRegion [] [''3000-4000 ---p 00000000 00:00 0 '']
   \<and> nextMemoryRegion_scan SplitMapsFileEntry ParseMapsFileMemoryLimits 0 zeroRegion []
        [''ffffffffff600000-ffffffffff601000 --xp 00000000 00:00 0 [vsyscall]'',
         ''3000-4000 ---p 00000000 00:00 0 '']
       = nextMemoryRegion_scan SplitMapsFileEntry ParseMapsFileMemoryLimits 0 zeroRegion []
           [''3000-4000 ---p 00000000 00:00 0 '']"
proof -
  have h1: "length (SplitMapsFileEntry
      ''ffffffffff600000-ffffffffff601000 --xp 00000000 00:00 0 [vsyscall]'') = 6"
    by (simp add: split_vsyscall)
  have h2: "ParseMapsFileMemoryLimits (SplitMapsFileEntry
      ''ffffffffff600000-ffffffffff601000 --xp 00000000 00:00 0 [vsyscall]'' ! 0)
      = Inr (0xffffffffff600000, 0xffffffffff601000)"
    by (simp add: split_vsyscall limits_vsyscall)
  have h3: "SplitMapsFileEntry
      ''ffffffffff600000-ffffffffff601000 --xp 00000000 00:00 0 [vsyscall]'' ! 5
      = ''[vsyscall]''"
    by (simp add: split_vsyscall)
  from vsyscall_skipped_without_softerror [of SplitMapsFileEntry
      "''ffffffffff600000-ffffffffff601000 --xp 00000000 00:00 0 [vsyscall]''"
      ParseMapsFileMemoryLimits "0xffffffffff600000" "0xffffffffff601000" 0 zeroRegion "[]"
      "[''3000-4000 ---p 00000000 00:00 0 '']" None, OF h1 h2 h3] h1 h2 h3
  show ?thesis by blast
qed

text \<open>
  The claim as stated fails on a listing that holds the \<open>[vsyscall]\<close> record alone: both
  enumerators skip it and return an empty softerror list.
\<close>

theorem vsyscall_skip_recorded_counterexample:
  "nextMemoryRegion SplitMapsFileEntry ParseMapsFileMemoryLimits
     (Inr ([''ffffffffff600000-ffffffffff601000 --xp 00000000 00:00 0 [vsyscall]''], None)) 0
     = Returned (NoRegionAvailable, None, [])
   \<and> nextReadableMemoryRegion SplitMapsFileEntry ParseMapsFileMemoryLimits
     (Inr ([''ffffffffff600000-ffffffffff601000 --xp 00000000 00:00 0 [vsyscall]''], None)) 0
     = Returned (NoRegionAvailable, None, [])"
  by (simp add: nextMemoryRegion_def nextReadableMemoryRegion_def split_vsyscall
      limits_vsyscall zeroRegion_def)

section \<open>The end of the listing\<close>

text \<open>
  Claim C4. The maps file yields one record, which lies below the address, and then its read
  fails. \<open>nextReadableMemoryRegion\<close> returns the failure as its fatal error;
  \<open>nextMemoryRegion\<close>, which never consults \<open>scanner.Err()\<close>, returns the sentinel with a
  nil fatal error.
\<close>

theorem nextMemoryRegion_drops_read_failure:
  "nextMemoryRegion SplitMapsFileEntry ParseMapsFileMemoryLimits
     (Inr ([''1000-2000 r-xp 00000000 08:01 1311 /bin/cat''],
           Some (ExternalError ''input/output error''))) 0x2000
     = Returned (NoRegionAvailable, None, [])
   \<and> nextReadableMemoryRegion SplitMapsFileEntry ParseMapsFileMemoryLimits
     (Inr ([''1000-2000 r-xp 00000000 08:01 1311 /bin/cat''],
           Some (ExternalError ''input/output error''))) 0x2000
     = Returned (NoRegionAvailable, Some (ExternalError ''input/output error''), [])"
  by (simp add: nextMemoryRegion_def nextReadableMemoryRegion_def split_text limits_text
      zeroRegion_def)

section \<open>What a merged region carries\<close>

text \<open>
  Claim C10. Every region that \<open>nextReadableMemoryRegion\<close> returns has the zero permission
  bitmask (none of the Read, Write and Execute bits) and the empty kind tag, whatever the
  records it was built from; the region that \<open>nextMemoryRegion\<close> returns for a record
  carries the permission bits and the kind tag of that record.
\<close>

theorem readable_region_has_no_access_no_kind:
  "(nextReadableMemoryRegion splitEntry parseLimits mapsFile address = Returned (r, he, se)
     \<longrightarrow> Access r = 0 \<and> Kind r = ''''
         \<and> Access r AND Readable = 0 \<and> Access r AND Writable = 0
         \<and> Access r AND Executable = 0)
   \<and> (wellFormed splitEntry parseLimits line \<and> \<not> passedOver splitEntry parseLimits address line
     \<longrightarrow> (\<exists>r'. nextMemoryRegion splitEntry parseLimits (Inr (line # rest, scanErr)) address
                 = Returned (r', None, [])
              \<and> Access r' = permissionBits (permsOf splitEntry line)
              \<and> Kind r' = kindOf splitEntry line))"
proof (intro conjI impI)
  assume ret:
    "nextReadableMemoryRegion splitEntry parseLimits mapsFile address = Returned (r, he, se)"
  have "Access r = 0 \<and> Kind r = ''''"
  proof (cases mapsFile)
    case (Inl err)
    with ret show ?thesis
      by (auto simp: nextReadableMemoryRegion_def zeroRegion_def)
  next
    case (Inr listing)
    obtain ls scanErr' where "listing = (ls, scanErr')"
      by (cases listing)
    with ret Inr have
      "nextReadableMemoryRegion_scan splitEntry parseLimits scanErr' address zeroRegion [] ls
         = Returned (r, he, se)"
      by (simp add: nextReadableMemoryRegion_def)
    from nextReadableMemoryRegion_scan_zero_access_kind [OF _ _ this]
    show ?thesis by (simp add: zeroRegion_def)
  qed
  then show "Access r = 0" and "Kind r = ''''"
    and "Access r AND Readable = 0" and "Access r AND Writable = 0"
    and "Access r AND Executable = 0"
    by simp_all
next
  assume "wellFormed splitEntry parseLimits line
          \<and> \<not> passedOver splitEntry parseLimits address line"
  then show "\<exists>r'. nextMemoryRegion splitEntry parseLimits (Inr (line # rest, scanErr)) address
                 = Returned (r', None, [])
              \<and> Access r' = permissionBits (permsOf splitEntry line)
              \<and> Kind r' = kindOf splitEntry line"
    by (simp add: nextMemoryRegion_def nextMemoryRegion_scan_found entryRegion_def
        del: nextMemoryRegion_scan.simps)
qed

theorem readable_region_has_no_access_no_kind_witness:
  "nextReadableMemoryRegion SplitMapsFileEntry ParseMapsFileMemoryLimits
     (Inr ([''1000-2000 r-xp 00000000 08:01 1311 /bin/cat'',
            ''2000-3000 rw-p 00001000 08:01 1311 /bin/cat'',
            ''3000-4000 ---p 00000000 00:00 0 ''], None)) 0
     = Returned (\<lparr>Address = 0x1000, Size = 0x2000, Access = 0, Kind = ''''\<rparr>, None, [])
   \<and> wellFormed SplitMapsFileEntry ParseMapsFileMemoryLimits
        ''1000-2000 r-xp 00000000 08:01 1311 /bin/cat''
   \<and> \<not> passedOver SplitMapsFileEntry ParseMapsFileMemoryLimits 0
        ''1000-2000 r-xp 00000000 08:01 1311 /bin/cat''
   \<and> nextMemoryRegion SplitMapsFileEntry ParseMapsFileMemoryLimits
     (Inr ([''1000-2000 r-xp 00000000 08:01 1311 /bin/cat'',
            ''2000-3000 rw-p 00001000 08:01 1311 /bin/cat'',
            ''3000-4000 ---p 00000000 00:00 0 ''], None)) 0
     = Returned (\<lparr>Address = 0x1000, Size = 0x1000, Access = Readable + Executable,
                  Kind = ''/bin/cat''\<rparr>, None, [])"
  using readable_region_has_no_access_no_kind
          [of SplitMapsFileEntry ParseMapsFileMemoryLimits
              "Inr ([''1000-2000 r-xp 00000000 08:01 1311 /bin/cat'',
                     ''2000-3000 rw-p 00001000 08:01 1311 /bin/cat'',
                     ''3000-4000 ---p 00000000 00:00 0 ''], None)" 0
              "\<lparr>Address = 0x1000, Size = 0x2000, Access = 0, Kind = ''''\<rparr>" None "[]"
              "''1000-2000 r-xp 00000000 08:01 1311 /bin/cat''"
              "[''2000-3000 rw-p 00001000 08:01 1311 /bin/cat'',
                ''3000-4000 ---p 00000000 00:00 0 '']" None]
  by (simp add: nextMemoryRegion_def nextReadableMemoryRegion_def sample_records record_defs
      zeroRegion_def None_Access_def)

section \<open>The next region\<close>

lemma nextMemoryRegion_scan_skips:
  assumes "\<forall>l\<in>set skipped. wellFormed sp pl l \<and> passedOver sp pl a l"
  shows "nextMemoryRegion_scan sp pl a region se (skipped @ ls)
           = nextMemoryRegion_scan sp pl a region se ls"
  using assms
  by (induction skipped)
     (simp_all add: nextMemoryRegion_scan_passedOver del: nextMemoryRegion_scan.simps)

text \<open>
  Claim C3, as amended. \<open>nextMemoryRegion\<close> returns the first record of the listing that is
  not the \<open>[vsyscall]\<close> record and whose end address is strictly greater than the given
  address, whatever its permission bits: the records before it, each of which ends at or
  below the address or is the \<open>[vsyscall]\<close> record, are skipped, and the region has the base
  address, the size, the permission bits and the kind tag of that record.
\<close>

theorem nextMemoryRegion_returns_first_record_above:
  assumes "\<forall>l\<in>set skipped. wellFormed splitEntry parseLimits l
             \<and> (endOf splitEntry parseLimits l \<le> address \<or> isVsyscall splitEntry l)"
    and "wellFormed splitEntry parseLimits entry"
    and "address < endOf splitEntry parseLimits entry"
    and "\<not> isVsyscall splitEntry entry"
  shows "nextMemoryRegion splitEntry parseLimits (Inr (skipped @ entry # rest, scanErr)) address
           = Returned (\<lparr>Address = startOf splitEntry parseLimits entry,
                         Size = endOf splitEntry parseLimits entry
                                  - startOf splitEntry parseLimits entry,
                         Access = permissionBits (permsOf splitEntry entry),
                         Kind = kindOf splitEntry entry\<rparr>, None, [])"
proof -
  from assms(1) have
    "\<forall>l\<in>set skipped. wellFormed splitEntry parseLimits l
        \<and> passedOver splitEntry parseLimits address l"
    by (simp add: passedOver_def)
  then have
    "nextMemoryRegion_scan splitEntry parseLimits address zeroRegion [] (skipped @ entry # rest)
       = nextMemoryRegion_scan splitEntry parseLimits address zeroRegion [] (entry # rest)"
    by (rule nextMemoryRegion_scan_skips)
  moreover from assms(3,4) have "\<not> passedOver splitEntry parseLimits address entry"
    by (simp add: passedOver_def)
  ultimately show ?thesis
    using assms(2)
    by (simp add: nextMemoryRegion_def nextMemoryRegion_scan_found entryRegion_def sizeOf_def
        del: nextMemoryRegion_scan.simps)
qed

theorem nextMemoryRegion_returns_first_record_above_witness:
  "wellFormed SplitMapsFileEntry ParseMapsFileMemoryLimits
     ''1000-2000 r-xp 00000000 08:01 1311 /bin/cat''
   \<and> endOf SplitMapsFileEntry ParseMapsFileMemoryLimits
        ''1000-2000 r-xp 00000000 08:01 1311 /bin/cat'' \<le> 0x2000
   \<and> wellFormed SplitMapsFileEntry ParseMapsFileMemoryLimits
        ''3000-4000 ---p 00000000 00:00 0 ''
   \<and> 0x2000 < endOf SplitMapsFileEntry ParseMapsFileMemoryLimits
        ''3000-4000 ---p 00000000 00:00 0 ''
   \<and> \<not> isVsyscall SplitMapsFileEntry ''3000-4000 ---p 00000000 00:00 0 ''
   \<and> nextMemoryRegion SplitMapsFileEntry ParseMapsFileMemoryLimits
        (Inr ([''1000-2000 r-xp 00000000 08:01 1311 /bin/cat'',
               ''3000-4000 ---p 00000000 00:00 0 '',
               ''5000-6000 rw-p 00000000 00:00 0 [heap]''], None)) 0x2000
       = Returned (\<lparr>Address = 0x3000, Size = 0x1000, Access = None_Access, Kind = ''''\<rparr>,
                   None, [])"
  using nextMemoryRegion_returns_first_record_above
          [of "[''1000-2000 r-xp 00000000 08:01 1311 /bin/cat'']" SplitMapsFileEntry
              ParseMapsFileMemoryLimits "0x2000" "''3000-4000 ---p 00000000 00:00 0 ''"
              "[''5000-6000 rw-p 00000000 00:00 0 [heap]'']" None]
  by (simp add: sample_records record_defs permissionBits_def)

text \<open>
  The claim as stated fails when the first record that ends above the address is the
  \<open>[vsyscall]\<close> record: it is not returned.
\<close>

theorem nextMemoryRegion_first_record_above_counterexample:
  "0x2000 < endOf SplitMapsFileEntry ParseMapsFileMemoryLimits
       ''ffffffffff600000-ffffffffff601000 --xp 00000000 00:00 0 [vsyscall]''
   \<and> nextMemoryRegion SplitMapsFileEntry ParseMapsFileMemoryLimits
        (Inr ([''1000-2000 r-xp 00000000 08:01 1311 /bin/cat'',
               ''ffffffffff600000-ffffffffff601000 --xp 00000000 00:00 0 [vsyscall]''],
              None)) 0x2000
       = Returned (NoRegionAvailable, None, [])"
  by (simp add: nextMemoryRegion_def sample_records record_defs zeroRegion_def)

section \<open>Unreadable records\<close>

text \<open>
  As long as no region has begun, the scan passes over records and gathers one softerror
  for each unreadable record that it looks at.
\<close>

lemma nextReadableMemoryRegion_scan_before_region:
  assumes "\<forall>l\<in>set before. wellFormed sp pl l \<and> (passedOver sp pl a l \<or> \<not> isReadable sp l)"
    and "Address region = 0"
  shows "nextReadableMemoryRegion_scan sp pl e a region se (before @ ls)
           = nextReadableMemoryRegion_scan sp pl e a region
               (se @ map (\<lambda>l. UnreadableMemory (rangeOf sp l))
                       (consideredRecords sp pl a before)) ls"
  using assms
proof (induction before arbitrary: se)
  case Nil
  then show ?case by (simp add: consideredRecords_def)
next
  case (Cons h rest)
  from Cons.prems(1) have wf: "wellFormed sp pl h"
    and h: "passedOver sp pl a h \<or> \<not> isReadable sp h"
    and rest: "\<forall>l\<in>set rest. wellFormed sp pl l \<and> (passedOver sp pl a l \<or> \<not> isReadable sp l)"
    by simp_all
  show ?case
  proof (cases "passedOver sp pl a h")
    case True
    with Cons.IH [OF rest Cons.prems(2), of se] wf show ?thesis
      by (simp add: nextReadableMemoryRegion_scan_passedOver consideredRecords_def
          del: nextReadableMemoryRegion_scan.simps)
  next
    case False
    with h have "\<not> isReadable sp h" by simp
    with Cons.IH [OF rest Cons.prems(2), of "se @ [UnreadableMemory (rangeOf sp h)]"]
      False wf Cons.prems(2)
    show ?thesis
      by (simp add: nextReadableMemoryRegion_scan_unreadable consideredRecords_def
          del: nextReadableMemoryRegion_scan.simps)
  qed
qed

text \<open>
  Claim C2, as amended. The records in question are the unreadable ones that
  \<open>nextReadableMemoryRegion\<close> looks at: they end above the address and are not the
  \<open>[vsyscall]\<close> record. Such a record, read before any accumulation has begun (every record
  before it was passed over or unreadable), appends exactly one softerror naming its address
  range to those of the records before it, and is skipped: the scan goes on with the rest of
  the listing. Read after the accumulation of a region with a base address other than zero
  has begun, it makes the scan return that region with a nil fatal error and the softerrors
  unchanged.
\<close>

theorem unreadable_record_softerror_or_region_end:
  assumes "\<forall>l\<in>set before. wellFormed splitEntry parseLimits l
             \<and> (passedOver splitEntry parseLimits address l \<or> \<not> isReadable splitEntry l)"
    and "wellFormed splitEntry parseLimits line"
    and "\<not> passedOver splitEntry parseLimits address line"
    and "\<not> isReadable splitEntry line"
  shows "nextReadableMemoryRegion_scan splitEntry parseLimits scanErr address zeroRegion []
             (before @ line # rest)
           = nextReadableMemoryRegion_scan splitEntry parseLimits scanErr address zeroRegion
               (map (\<lambda>l. UnreadableMemory (rangeOf splitEntry l))
                  (consideredRecords splitEntry parseLimits address before)
                @ [UnreadableMemory (rangeOf splitEntry line)]) rest
       \<and> (Address region \<noteq> 0 \<longrightarrow>
            nextReadableMemoryRegion_scan splitEntry parseLimits scanErr address region
                softerrors (line # rest)
              = Returned (region, None, softerrors))"
proof
  have zero: "Address zeroRegion = 0"
    by (simp add: zeroRegion_def)
  from nextReadableMemoryRegion_scan_before_region [OF assms(1) zero, of scanErr "[]"]
    nextReadableMemoryRegion_scan_unreadable [OF assms(2,3,4), of scanErr zeroRegion] zero
  show "nextReadableMemoryRegion_scan splitEntry parseLimits scanErr address zeroRegion []
             (before @ line # rest)
           = nextReadableMemoryRegion_scan splitEntry parseLimits scanErr address zeroRegion
               (map (\<lambda>l. UnreadableMemory (rangeOf splitEntry l))
                  (consideredRecords splitEntry parseLimits address before)
                @ [UnreadableMemory (rangeOf splitEntry line)]) rest"
    by (simp del: nextReadableMemoryRegion_scan.simps)
next
  from nextReadableMemoryRegion_scan_unreadable [OF assms(2,3,4), of scanErr region]
  show "Address region \<noteq> 0 \<longrightarrow>
          nextReadableMemoryRegion_scan splitEntry parseLimits scanErr address region
              softerrors (line # rest)
            = Returned (region, None, softerrors)"
    by simp
qed

theorem unreadable_record_softerror_or_region_end_witness:
  "wellFormed SplitMapsFileEntry ParseMapsFileMemoryLimits
     ''1000-2000 r-xp 00000000 08:01 1311 /bin/cat''
   \<and> passedOver SplitMapsFileEntry ParseMapsFileMemoryLimits 0x2000
        ''1000-2000 r-xp 00000000 08:01 1311 /bin/cat''
   \<and> wellFormed SplitMapsFileEntry ParseMapsFileMemoryLimits
        ''3000-4000 ---p 00000000 00:00 0 ''
   \<and> \<not> passedOver SplitMapsFileEntry ParseMapsFileMemoryLimits 0x2000
         ''3000-4000 ---p 00000000 00:00 0 ''
   \<and> \<not> isReadable SplitMapsFileEntry ''3000-4000 ---p 00000000 00:00 0 ''
   \<and> nextReadableMemoryRegion_scan SplitMapsFileEntry ParseMapsFileMemoryLimits None 0x2000
        zeroRegion []
        [''1000-2000 r-xp 00000000 08:01 1311 /bin/cat'',
         ''3000-4000 ---p 00000000 00:00 0 '',
         ''5000-6000 rw-p 00000000 00:00 0 [heap]'']
       = Returned (\<lparr>Address = 0x5000, Size = 0x1000, Access = 0, Kind = ''''\<rparr>, None,
                   [UnreadableMemory ''3000-4000''])
   \<and> nextReadableMemoryRegion_scan SplitMapsFileEntry ParseMapsFileMemoryLimits None 0x2000
        \<lparr>Address = 0x2000, Size = 0x1000, Access = 0, Kind = ''''\<rparr> []
        [''3000-4000 ---p 00000000 00:00 0 '', ''5000-6000 rw-p 00000000 00:00 0 [heap]'']
       = Returned (\<lparr>Address = 0x2000, Size = 0x1000, Access = 0, Kind = ''''\<rparr>, None, [])"
  using unreadable_record_softerror_or_region_end
          [where before = "[''1000-2000 r-xp 00000000 08:01 1311 /bin/cat'']"
             and splitEntry = SplitMapsFileEntry and parseLimits = ParseMapsFileMemoryLimits
             and address = "0x2000" and line = "''3000-4000 ---p 00000000 00:00 0 ''"
             and region = "\<lparr>Address = 0x2000, Size = 0x1000, Access = 0, Kind = ''''\<rparr>"
             and scanErr = None and softerrors = "[]"
             and rest = "[''5000-6000 rw-p 00000000 00:00 0 [heap]'']"]
  by (simp add: sample_records record_defs zeroRegion_def consideredRecords_def)

text \<open>
  The claim as stated fails on the unreadable \<open>[vsyscall]\<close> record: read before any
  accumulation has begun (the heap ends at the address and is passed over), it leaves no
  softerror.
\<close>

theorem unreadable_record_counterexample:
  "\<not> isReadable SplitMapsFileEntry
       ''ffffffffff600000-ffffffffff601000 --xp 00000000 00:00 0 [vsyscall]''
   \<and> nextReadableMemoryRegion SplitMapsFileEntry ParseMapsFileMemoryLimits
     (Inr ([''5000-6000 rw-p 00000000 00:00 0 [heap]'',
            ''ffffffffff600000-ffffffffff601000 --xp 00000000 00:00 0 [vsyscall]''], None))
     0x6000
     = Returned (NoRegionAvailable, None, [])"
  by (simp add: nextReadableMemoryRegion_def sample_records record_defs zeroRegion_def)

section \<open>A region that begins at address 0\<close>

lemma nextReadableMemoryRegion_scan_base_zero:
  assumes "\<forall>l\<in>set ls. wellFormed sp pl l"
    and "\<forall>l\<in>set (consideredRecords sp pl a ls). isReadable sp l \<longrightarrow> startOf sp pl l = 0"
    and "Address region = 0"
  shows "nextReadableMemoryRegion_scan sp pl e a region se ls
           = Returned (NoRegionAvailable, e,
               se @ map (\<lambda>l. UnreadableMemory (rangeOf sp l))
                      (filter (\<lambda>l. \<not> isReadable sp l) (consideredRecords sp pl a ls)))"
  using assms
proof (induction ls arbitrary: region se)
  case Nil
  then show ?case by (simp add: consideredRecords_def split: option.splits)
next
  case (Cons line rest)
  from Cons.prems(1) have wf: "wellFormed sp pl line" and wfs: "\<forall>l\<in>set rest. wellFormed sp pl l"
    by simp_all
  show ?case
  proof (cases "passedOver sp pl a line")
    case True
    with Cons.prems(2) have
      "\<forall>l\<in>set (consideredRecords sp pl a rest). isReadable sp l \<longrightarrow> startOf sp pl l = 0"
      by (simp add: consideredRecords_def)
    from Cons.IH [OF wfs this Cons.prems(3)] True wf show ?thesis
      by (simp add: nextReadableMemoryRegion_scan_passedOver consideredRecords_def
          del: nextReadableMemoryRegion_scan.simps)
  next
    case False
    with Cons.prems(2) have
      rest0: "\<forall>l\<in>set (consideredRecords sp pl a rest). isReadable sp l \<longrightarrow> startOf sp pl l = 0"
      and line0: "isReadable sp line \<longrightarrow> startOf sp pl line = 0"
      by (simp_all add: consideredRecords_def)
    show ?thesis
    proof (cases "isReadable sp line")
      case True
      with line0 have "startOf sp pl line = 0" by simp
      with Cons.IH [OF wfs rest0, of
          "\<lparr>Address = startOf sp pl line, Size = sizeOf sp pl line, Access = 0, Kind = ''''\<rparr>" se]
        True False wf Cons.prems(3)
      show ?thesis
        by (simp add: nextReadableMemoryRegion_scan_readable consideredRecords_def
            del: nextReadableMemoryRegion_scan.simps)
    next
      case unreadable: False
      with Cons.IH [OF wfs rest0 Cons.prems(3),
          of "se @ [UnreadableMemory (rangeOf sp line)]"] False wf Cons.prems(3)
      show ?thesis
        by (simp add: nextReadableMemoryRegion_scan_unreadable consideredRecords_def
            del: nextReadableMemoryRegion_scan.simps)
    qed
  qed
qed

text \<open>
  Claim C9. \<open>nextReadableMemoryRegion\<close> takes a region to be begun only when its base address
  is not zero. So when every readable record that it looks at (one that ends above the
  address and is not \<open>[vsyscall]\<close>) begins at address 0, the call returns the sentinel
  instead of that mapping, with no fatal error but a read failure of the listing, and every
  unreadable record that it looks at, those after the readable one too, is recorded as a
  softerror.
\<close>

theorem region_at_address_zero_is_lost:
  assumes "\<forall>l\<in>set lines. wellFormed splitEntry parseLimits l"
    and "\<forall>l\<in>set (consideredRecords splitEntry parseLimits address lines).
           isReadable splitEntry l \<longrightarrow> startOf splitEntry parseLimits l = 0"
  shows "nextReadableMemoryRegion splitEntry parseLimits (Inr (lines, scanErr)) address
           = Returned (NoRegionAvailable, scanErr,
               map (\<lambda>l. UnreadableMemory (rangeOf splitEntry l))
                 (filter (\<lambda>l. \<not> isReadable splitEntry l)
                    (consideredRecords splitEntry parseLimits address lines)))"
  using nextReadableMemoryRegion_scan_base_zero [OF assms, of zeroRegion scanErr "[]"]
  by (simp add: nextReadableMemoryRegion_def zeroRegion_def)

theorem region_at_address_zero_is_lost_witness:
  "wellFormed SplitMapsFileEntry ParseMapsFileMemoryLimits ''0-1000 r--p 00000000 00:00 0 ''
   \<and> wellFormed SplitMapsFileEntry ParseMapsFileMemoryLimits
        ''3000-4000 ---p 00000000 00:00 0 ''
   \<and> consideredRecords SplitMapsFileEntry ParseMapsFileMemoryLimits 0
        [''0-1000 r--p 00000000 00:00 0 '', ''3000-4000 ---p 00000000 00:00 0 '']
       = [''0-1000 r--p 00000000 00:00 0 '', ''3000-4000 ---p 00000000 00:00 0 '']
   \<and> isReadable SplitMapsFileEntry ''0-1000 r--p 00000000 00:00 0 ''
   \<and> startOf SplitMapsFileEntry ParseMapsFileMemoryLimits ''0-1000 r--p 00000000 00:00 0 '' = 0
   \<and> \<not> isReadable SplitMapsFileEntry ''3000-4000 ---p 00000000 00:00 0 ''
   \<and> nextReadableMemoryRegion SplitMapsFileEntry ParseMapsFileMemoryLimits
        (Inr ([''0-1000 r--p 00000000 00:00 0 '', ''3000-4000 ---p 00000000 00:00 0 ''],
              None)) 0
       = Returned (NoRegionAvailable, None, [UnreadableMemory ''3000-4000''])"
  using region_at_address_zero_is_lost
          [of "[''0-1000 r--p 00000000 00:00 0 '', ''3000-4000 ---p 00000000 00:00 0 '']"
              SplitMapsFileEntry ParseMapsFileMemoryLimits 0 None]
  by (simp add: sample_records record_defs consideredRecords_def)

section \<open>Merging contiguous readable records\<close>

lemma nextReadableMemoryRegion_scan_accumulating:
  assumes "\<forall>l\<in>set ls. wellFormed sp pl l" and "Address region \<noteq> 0"
  shows "nextReadableMemoryRegion_scan sp pl None a region se ls
           = Returned (region\<lparr>Size := Size region
                 + sum_list (map (sizeOf sp pl)
                     (extendRun sp pl (Address region + Size region)
                        (consideredRecords sp pl a ls)))\<rparr>, None, se)"
  using assms
proof (induction ls arbitrary: region)
  case Nil
  then show ?case by (simp add: consideredRecords_def word_neq_0_conv)
next
  case (Cons line rest)
  from Cons.prems(1) have wf: "wellFormed sp pl line" and wfs: "\<forall>l\<in>set rest. wellFormed sp pl l"
    by simp_all
  show ?case
  proof (cases "passedOver sp pl a line")
    case True
    with Cons.IH [OF wfs Cons.prems(2)] wf show ?thesis
      by (simp add: nextReadableMemoryRegion_scan_passedOver consideredRecords_def
          del: nextReadableMemoryRegion_scan.simps)
  next
    case False
    show ?thesis
    proof (cases "isReadable sp line")
      case unreadable: False
      with False wf Cons.prems(2) show ?thesis
        by (simp add: nextReadableMemoryRegion_scan_unreadable consideredRecords_def
            del: nextReadableMemoryRegion_scan.simps)
    next
      case True
      show ?thesis
      proof (cases "Address region + Size region = startOf sp pl line")
        case contiguous: True
        have "Address (region\<lparr>Size := Size region + sizeOf sp pl line\<rparr>) \<noteq> 0"
          using Cons.prems(2) by simp
        from Cons.IH [OF wfs this] True False wf Cons.prems(2) show ?thesis
          by (simp add: nextReadableMemoryRegion_scan_readable consideredRecords_def
              contiguous [symmetric] add.assoc del: nextReadableMemoryRegion_scan.simps)
      next
        case apart: False
        with True \<open>\<not> passedOver sp pl a line\<close> wf Cons.prems(2) show ?thesis
          by (simp add: nextReadableMemoryRegion_scan_readable consideredRecords_def
              del: nextReadableMemoryRegion_scan.simps)
      qed
    qed
  qed
qed

lemma nextReadableMemoryRegion_scan_beginning:
  assumes "\<forall>l\<in>set ls. wellFormed sp pl l" and "Address region = 0"
    and "dropWhile (\<lambda>l. \<not> isReadable sp l) (consideredRecords sp pl a ls) = first # following"
    and "startOf sp pl first \<noteq> 0"
  shows "\<exists>se'. nextReadableMemoryRegion_scan sp pl None a region se ls
           = Returned (\<lparr>Address = startOf sp pl first,
                Size = sum_list (map (sizeOf sp pl)
                  (first # extendRun sp pl (startOf sp pl first + sizeOf sp pl first)
                             following)),
                Access = 0, Kind = ''''\<rparr>, None, se')"
  using assms
proof (induction ls arbitrary: se)
  case Nil
  then show ?case by (simp add: consideredRecords_def)
next
  case (Cons line rest)
  from Cons.prems(1) have wf: "wellFormed sp pl line" and wfs: "\<forall>l\<in>set rest. wellFormed sp pl l"
    by simp_all
  show ?case
  proof (cases "passedOver sp pl a line")
    case True
    with Cons.prems(3) have
      "dropWhile (\<lambda>l. \<not> isReadable sp l) (consideredRecords sp pl a rest) = first # following"
      by (simp add: consideredRecords_def)
    from Cons.IH [OF wfs Cons.prems(2) this Cons.prems(4)] True wf show ?thesis
      by (simp add: nextReadableMemoryRegion_scan_passedOver
          del: nextReadableMemoryRegion_scan.simps)
  next
    case False
    show ?thesis
    proof (cases "isReadable sp line")
      case unreadable: False
      with \<open>\<not> passedOver sp pl a line\<close> Cons.prems(3) have
        "dropWhile (\<lambda>l. \<not> isReadable sp l) (consideredRecords sp pl a rest) = first # following"
        by (simp add: consideredRecords_def)
      from Cons.IH [OF wfs Cons.prems(2) this Cons.prems(4)]
        unreadable \<open>\<not> passedOver sp pl a line\<close> wf Cons.prems(2)
      show ?thesis
        by (simp add: nextReadableMemoryRegion_scan_unreadable
            del: nextReadableMemoryRegion_scan.simps)
    next
      case True
      with False Cons.prems(3) have first: "first = line"
        and following: "following = consideredRecords sp pl a rest"
        by (simp_all add: consideredRecords_def)
      have "Address \<lparr>Address = startOf sp pl line, Size = sizeOf sp pl line, Access = 0,
                     Kind = ''''\<rparr> \<noteq> 0"
        using Cons.prems(4) first by simp
      from nextReadableMemoryRegion_scan_accumulating [OF wfs this, of a se]
        True False wf Cons.prems(2) first following
      show ?thesis
        by (simp add: nextReadableMemoryRegion_scan_readable
            del: nextReadableMemoryRegion_scan.simps)
    qed
  qed
qed

text \<open>
  Claim C1, as amended. On a listing of well-formed records that is read to its end without
  a failure, \<open>nextReadableMemoryRegion\<close> looks only at the records that end above the
  starting address and are not the \<open>[vsyscall]\<close> record, and merges them as the
  specification says (\<open>mergedRegion_spec\<close>) whenever the first readable one does not begin at
  address 0: the region starts at the first readable record, is extended by each following
  record that is readable and starts at the end of the accumulated region, and is returned
  at the first record that is unreadable or not contiguous, or at the end of the listing;
  its size is the sum of the sizes of the merged records.
\<close>

theorem nextReadableMemoryRegion_merges_contiguous_records:
  assumes "\<forall>l\<in>set lines. wellFormed splitEntry parseLimits l"
    and "mergedRegion_spec splitEntry parseLimits
           (consideredRecords splitEntry parseLimits address lines) = Some r"
    and "Address r \<noteq> 0"
  shows "\<exists>softerrors.
           nextReadableMemoryRegion splitEntry parseLimits (Inr (lines, None)) address
             = Returned (r, None, softerrors)"
proof -
  from assms(2) obtain first following where
    run: "dropWhile (\<lambda>l. \<not> isReadable splitEntry l)
            (consideredRecords splitEntry parseLimits address lines) = first # following"
    and r: "r = \<lparr>Address = startOf splitEntry parseLimits first,
                  Size = sum_list (map (sizeOf splitEntry parseLimits)
                    (first # extendRun splitEntry parseLimits
                       (startOf splitEntry parseLimits first
                          + sizeOf splitEntry parseLimits first) following)),
                  Access = 0, Kind = ''''\<rparr>"
    by (auto simp: mergedRegion_spec_def split: list.splits)
  from assms(3) r have "startOf splitEntry parseLimits first \<noteq> 0"
    by simp
  from nextReadableMemoryRegion_scan_beginning [OF assms(1) _ run this, of zeroRegion "[]"] r
  show ?thesis
    by (simp add: nextReadableMemoryRegion_def zeroRegion_def)
qed

theorem nextReadableMemoryRegion_merges_contiguous_records_witness:
  "wellFormed SplitMapsFileEntry ParseMapsFileMemoryLimits
     ''1000-2000 r-xp 00000000 08:01 1311 /bin/cat''
   \<and> wellFormed SplitMapsFileEntry ParseMapsFileMemoryLimits
     ''2000-3000 rw-p 00001000 08:01 1311 /bin/cat''
   \<and> wellFormed SplitMapsFileEntry ParseMapsFileMemoryLimits
     ''5000-6000 rw-p 00000000 00:00 0 [heap]''
   \<and> mergedRegion_spec SplitMapsFileEntry ParseMapsFileMemoryLimits
        (consideredRecords SplitMapsFileEntry ParseMapsFileMemoryLimits 0
          [''1000-2000 r-xp 00000000 08:01 1311 /bin/cat'',
           ''2000-3000 rw-p 00001000 08:01 1311 /bin/cat'',
           ''5000-6000 rw-p 00000000 00:00 0 [heap]''])
       = Some \<lparr>Address = 0x1000, Size = 0x2000, Access = 0, Kind = ''''\<rparr>
   \<and> nextReadableMemoryRegion SplitMapsFileEntry ParseMapsFileMemoryLimits
        (Inr ([''1000-2000 r-xp 00000000 08:01 1311 /bin/cat'',
               ''2000-3000 rw-p 00001000 08:01 1311 /bin/cat'',
               ''5000-6000 rw-p 00000000 00:00 0 [heap]''], None)) 0
       = Returned (\<lparr>Address = 0x1000, Size = 0x2000, Access = 0, Kind = ''''\<rparr>, None, [])"
  using nextReadableMemoryRegion_merges_contiguous_records
          [of "[''1000-2000 r-xp 00000000 08:01 1311 /bin/cat'',
                ''2000-3000 rw-p 00001000 08:01 1311 /bin/cat'',
                ''5000-6000 rw-p 00000000 00:00 0 [heap]'']"
              SplitMapsFileEntry ParseMapsFileMemoryLimits 0
              "\<lparr>Address = 0x1000, Size = 0x2000, Access = 0, Kind = ''''\<rparr>"]
  by (simp add: nextReadableMemoryRegion_def mergedRegion_spec_def consideredRecords_def
      sample_records record_defs zeroRegion_def)

text \<open>
  The claim as stated fails when the first readable record that ends above the starting
  address is the \<open>[vsyscall]\<close> record: merged as the claim says, the records that end above
  the address give the region of that page; the call skips the page and returns the
  sentinel.
\<close>

theorem nextReadableMemoryRegion_merge_counterexample:
  "mergedRegion_spec SplitMapsFileEntry ParseMapsFileMemoryLimits
     (filter (\<lambda>l. 0x2000 < endOf SplitMapsFileEntry ParseMapsFileMemoryLimits l)
        [''1000-2000 r-xp 00000000 08:01 1311 /bin/cat'',
         ''ffffffffff600000-ffffffffff601000 r-xp 00000000 00:00 0 [vsyscall]''])
     = Some \<lparr>Address = 0xffffffffff600000, Size = 0x1000, Access = 0, Kind = ''''\<rparr>
   \<and> nextReadableMemoryRegion SplitMapsFileEntry ParseMapsFileMemoryLimits
       (Inr ([''1000-2000 r-xp 00000000 08:01 1311 /bin/cat'',
              ''ffffffffff600000-ffffffffff601000 r-xp 00000000 00:00 0 [vsyscall]''],
             None)) 0x2000
     = Returned (NoRegionAvailable, None, [])"
  by (simp add: nextReadableMemoryRegion_def mergedRegion_spec_def sample_records record_defs
      zeroRegion_def)

section \<open>Enumerating a sorted listing\<close>

lemma sortedListing_bounds:
  assumes "sortedListing sp pl lo ls" and "l \<in> set ls"
  shows "wellFormed sp pl l \<and> lo \<le> startOf sp pl l \<and> startOf sp pl l < endOf sp pl l"
  using assms
proof (induction ls arbitrary: lo)
  case Nil
  then show ?case by simp
next
  case (Cons h rest)
  show ?case
  proof (cases "l = h")
    case True
    with Cons.prems(1) show ?thesis by simp
  next
    case False
    with Cons.prems have "sortedListing sp pl (endOf sp pl h) rest" and "l \<in> set rest"
      by simp_all
    from Cons.IH [OF this] have "wellFormed sp pl l" and "endOf sp pl h \<le> startOf sp pl l"
      and "startOf sp pl l < endOf sp pl l"
      by simp_all
    moreover from Cons.prems(1) have "lo \<le> startOf sp pl h"
      and "startOf sp pl h < endOf sp pl h"
      by simp_all
    ultimately show ?thesis by auto
  qed
qed

text \<open>In a sorted listing no record ends strictly inside another one.\<close>

lemma sortedListing_ends:
  assumes "sortedListing sp pl lo ls" and "l \<in> set ls" and "l' \<in> set ls"
  shows "endOf sp pl l' \<le> endOf sp pl l \<or> endOf sp pl l \<le> startOf sp pl l'"
  using assms
proof (induction ls arbitrary: lo)
  case Nil
  then show ?case by simp
next
  case (Cons h rest)
  from Cons.prems(1) have rest: "sortedListing sp pl (endOf sp pl h) rest"
    by simp
  show ?case
  proof (cases "l' \<in> set rest")
    case l'_rest: True
    show ?thesis
    proof (cases "l \<in> set rest")
      case True
      from Cons.IH [OF rest True l'_rest] show ?thesis .
    next
      case False
      with Cons.prems(2) have "l = h" by simp
      with sortedListing_bounds [OF rest l'_rest] show ?thesis by simp
    qed
  next
    case False
    with Cons.prems(3) have l': "l' = h" by simp
    show ?thesis
    proof (cases "l \<in> set rest")
      case True
      from sortedListing_bounds [OF rest True] l' show ?thesis by auto
    next
      case False
      with Cons.prems(2) l' show ?thesis by simp
    qed
  qed
qed

lemma spansRecords_Cons:
  "spansRecords sp pl a rest r \<Longrightarrow> spansRecords sp pl a (h # rest) r"
  by (auto simp: spansRecords_def)

lemma nextMemoryRegion_scan_spans:
  assumes "sortedListing sp pl lo ls"
    and "nextMemoryRegion_scan sp pl a region se ls = Returned (r, he, se')"
    and "r \<noteq> NoRegionAvailable"
  shows "spansRecords sp pl a ls r"
  using assms
proof (induction ls arbitrary: lo)
  case Nil
  then show ?case by simp
next
  case (Cons h rest)
  from Cons.prems(1) have wf: "wellFormed sp pl h"
    and nonempty: "startOf sp pl h < endOf sp pl h"
    and rest: "sortedListing sp pl (endOf sp pl h) rest"
    by simp_all
  show ?case
  proof (cases "passedOver sp pl a h")
    case True
    with Cons.prems(2) wf have
      "nextMemoryRegion_scan sp pl a region se rest = Returned (r, he, se')"
      by (simp add: nextMemoryRegion_scan_passedOver del: nextMemoryRegion_scan.simps)
    from Cons.IH [OF rest this Cons.prems(3)] show ?thesis
      by (rule spansRecords_Cons)
  next
    case False
    with Cons.prems(2) wf have "r = entryRegion sp pl h"
      by (simp add: nextMemoryRegion_scan_found del: nextMemoryRegion_scan.simps)
    with False nonempty show ?thesis
      by (simp add: spansRecords_def entryRegion_def sizeOf_def)
  qed
qed

text \<open>
  The invariant of the scan of \<open>nextReadableMemoryRegion\<close> over a sorted listing: a region
  that has begun is a non-empty range that ends at or below the start of the records still
  to be read.
\<close>

lemma nextReadableMemoryRegion_scan_spans:
  assumes "sortedListing sp pl lo ls"
    and "Address region \<noteq> 0 \<longrightarrow>
           Address region < Address region + Size region \<and> Address region + Size region \<le> lo"
    and "nextReadableMemoryRegion_scan sp pl e a region se ls = Returned (r, he, se')"
    and "r \<noteq> NoRegionAvailable"
  shows "Address r < Address r + Size r
       \<and> (Address region \<noteq> 0 \<and> Address r = Address region
           \<or> (\<exists>l\<in>set ls. \<not> passedOver sp pl a l \<and> Address r = startOf sp pl l))
       \<and> (Address region \<noteq> 0 \<and> Address r + Size r = Address region + Size region
           \<or> (\<exists>l\<in>set ls. Address r + Size r = endOf sp pl l))"
  using assms
proof (induction ls arbitrary: lo region se)
  case Nil
  then show ?case
    by (auto simp: word_neq_0_conv split: option.splits if_splits)
next
  case (Cons h rest)
  from Cons.prems(1) have wf: "wellFormed sp pl h"
    and lo: "lo \<le> startOf sp pl h"
    and nonempty: "startOf sp pl h < endOf sp pl h"
    and rest: "sortedListing sp pl (endOf sp pl h) rest"
    by simp_all
  note inv = Cons.prems(2)
  note ret = Cons.prems(3)
  have keep: "Address region \<noteq> 0 \<longrightarrow>
      Address region < Address region + Size region
      \<and> Address region + Size region \<le> endOf sp pl h"
    using inv lo nonempty by auto
  show ?case
  proof (cases "passedOver sp pl a h")
    case True
    with ret wf have
      "nextReadableMemoryRegion_scan sp pl e a region se rest = Returned (r, he, se')"
      by (simp add: nextReadableMemoryRegion_scan_passedOver
          del: nextReadableMemoryRegion_scan.simps)
    from Cons.IH [OF rest keep this Cons.prems(4)] show ?thesis
      by auto
  next
    case considered: False
    show ?thesis
    proof (cases "isReadable sp h")
      case unreadable: False
      show ?thesis
      proof (cases "Address region = 0")
        case True
        with ret wf considered unreadable have
          "nextReadableMemoryRegion_scan sp pl e a region
             (se @ [UnreadableMemory (rangeOf sp h)]) rest = Returned (r, he, se')"
          by (simp add: nextReadableMemoryRegion_scan_unreadable
              del: nextReadableMemoryRegion_scan.simps)
        from Cons.IH [OF rest keep this Cons.prems(4)] show ?thesis
          by auto
      next
        case False
        with ret wf considered unreadable have "r = region"
          by (simp add: nextReadableMemoryRegion_scan_unreadable
              del: nextReadableMemoryRegion_scan.simps)
        with False inv show ?thesis by simp
      qed
    next
      case readable: True
      show ?thesis
      proof (cases "Address region = 0")
        case True
        define region' where
          "region' = \<lparr>Address = startOf sp pl h, Size = sizeOf sp pl h, Access = 0,
                      Kind = ''''\<rparr>"
        from ret wf considered readable True have scan:
          "nextReadableMemoryRegion_scan sp pl e a region' se rest = Returned (r, he, se')"
          by (simp add: nextReadableMemoryRegion_scan_readable region'_def
              del: nextReadableMemoryRegion_scan.simps)
        have ends: "Address region' + Size region' = endOf sp pl h"
          and begins: "Address region' = startOf sp pl h"
          by (simp_all add: region'_def sizeOf_def)
        with nonempty have "Address region' \<noteq> 0 \<longrightarrow>
            Address region' < Address region' + Size region'
            \<and> Address region' + Size region' \<le> endOf sp pl h"
          by simp
        from Cons.IH [OF rest this scan Cons.prems(4)] considered ends begins
        show ?thesis
          by auto
      next
        case begun: False
        show ?thesis
        proof (cases "Address region + Size region = startOf sp pl h")
          case contiguous: True
          define region' where "region' = region\<lparr>Size := Size region + sizeOf sp pl h\<rparr>"
          from ret wf considered readable begun contiguous have scan:
            "nextReadableMemoryRegion_scan sp pl e a region' se rest = Returned (r, he, se')"
            by (simp add: nextReadableMemoryRegion_scan_readable region'_def
                del: nextReadableMemoryRegion_scan.simps)
          have begins: "Address region' = Address region"
            by (simp add: region'_def)
          have "Address region' + Size region'
                  = (Address region + Size region) + sizeOf sp pl h"
            by (simp add: region'_def add.assoc)
          with contiguous have ends: "Address region' + Size region' = endOf sp pl h"
            by (simp add: sizeOf_def)
          from inv begun contiguous nonempty
          have "Address region < endOf sp pl h"
            by auto
          with begins ends have "Address region' \<noteq> 0 \<longrightarrow>
              Address region' < Address region' + Size region'
              \<and> Address region' + Size region' \<le> endOf sp pl h"
            by simp
          from Cons.IH [OF rest this scan Cons.prems(4)] begun begins ends
          show ?thesis
            by auto
        next
          case False
          with ret wf considered readable begun have "r = region"
            by (simp add: nextReadableMemoryRegion_scan_readable
                del: nextReadableMemoryRegion_scan.simps)
          with begun inv show ?thesis by simp
        qed
      qed
    qed
  qed
qed

text \<open>Every region that is not the sentinel, of either enumerator, spans records.\<close>

lemma enumerator_spans:
  assumes "sortedListing sp pl 0 ls"
    and "nextCall = nextMemoryRegion sp pl (Inr (ls, e))
         \<or> nextCall = nextReadableMemoryRegion sp pl (Inr (ls, e))"
    and "nextCall a = Returned (r, he, se)"
    and "r \<noteq> NoRegionAvailable"
  shows "spansRecords sp pl a ls r"
  using assms(2)
proof
  assume "nextCall = nextMemoryRegion sp pl (Inr (ls, e))"
  with assms(3) have
    "nextMemoryRegion_scan sp pl a zeroRegion [] ls = Returned (r, he, se)"
    by (simp add: nextMemoryRegion_def)
  from nextMemoryRegion_scan_spans [OF assms(1) this assms(4)] show ?thesis .
next
  assume "nextCall = nextReadableMemoryRegion sp pl (Inr (ls, e))"
  with assms(3) have
    "nextReadableMemoryRegion_scan sp pl e a zeroRegion [] ls = Returned (r, he, se)"
    by (simp add: nextReadableMemoryRegion_def)
  from nextReadableMemoryRegion_scan_spans [OF assms(1) _ this assms(4)] show ?thesis
    by (simp add: spansRecords_def zeroRegion_def)
qed

text \<open>
  A call at the end of a record of a sorted listing returns a region at or above that
  address.
\<close>

lemma spansRecords_above:
  assumes "sortedListing sp pl 0 ls" and "l \<in> set ls"
    and "spansRecords sp pl (endOf sp pl l) ls r"
  shows "endOf sp pl l \<le> Address r"
proof -
  from assms(3) obtain l' where l': "l' \<in> set ls"
    and above: "\<not> passedOver sp pl (endOf sp pl l) l'"
    and start: "Address r = startOf sp pl l'"
    by (auto simp: spansRecords_def)
  from above have "\<not> endOf sp pl l' \<le> endOf sp pl l"
    by (simp add: passedOver_def)
  with sortedListing_ends [OF assms(1,2) l'] start show ?thesis
    by simp
qed

lemma enumeration_from_record_end:
  assumes "sortedListing sp pl 0 ls"
    and "nextCall = nextMemoryRegion sp pl (Inr (ls, e))
         \<or> nextCall = nextReadableMemoryRegion sp pl (Inr (ls, e))"
    and "l \<in> set ls"
    and "enumeration nextCall (endOf sp pl l) rs"
  shows "sorted_wrt (\<lambda>r r'. Address r + Size r \<le> Address r') rs
       \<and> (\<forall>r\<in>set rs. endOf sp pl l \<le> Address r \<and> Address r < Address r + Size r)"
  using assms(3,4)
proof (induction rs arbitrary: l)
  case Nil
  then show ?case by simp
next
  case (Cons r rs)
  from Cons.prems(2) obtain he se where
    call: "nextCall (endOf sp pl l) = Returned (r, he, se)"
    and r: "r \<noteq> NoRegionAvailable"
    and rest: "enumeration nextCall (Address r + Size r) rs"
    by (auto split: outcome.splits)
  from enumerator_spans [OF assms(1,2) call r]
  have spans: "spansRecords sp pl (endOf sp pl l) ls r" .
  from spansRecords_above [OF assms(1) Cons.prems(1) spans]
  have above: "endOf sp pl l \<le> Address r" .
  from spans have nonempty: "Address r < Address r + Size r"
    by (simp add: spansRecords_def)
  from spans obtain l' where l': "l' \<in> set ls" and "Address r + Size r = endOf sp pl l'"
    by (auto simp: spansRecords_def)
  with rest have "enumeration nextCall (endOf sp pl l') rs"
    by simp
  from Cons.IH [OF l' this] \<open>Address r + Size r = endOf sp pl l'\<close>
  have sorted: "sorted_wrt (\<lambda>r r'. Address r + Size r \<le> Address r') rs"
    and each: "\<forall>r'\<in>set rs. Address r + Size r \<le> Address r'
                 \<and> Address r' < Address r' + Size r'"
    by simp_all
  from above nonempty each
  have "\<forall>r'\<in>set rs. endOf sp pl l \<le> Address r'"
    by auto
  with sorted each above nonempty show ?case
    by simp
qed

lemma enumeration_sorted:
  assumes "sortedListing sp pl 0 ls"
    and "nextCall = nextMemoryRegion sp pl (Inr (ls, e))
         \<or> nextCall = nextReadableMemoryRegion sp pl (Inr (ls, e))"
    and "enumeration nextCall a rs"
  shows "sorted_wrt (\<lambda>r r'. Address r + Size r \<le> Address r') rs
       \<and> (\<forall>r\<in>set rs. Address r < Address r + Size r)"
proof (cases rs)
  case Nil
  then show ?thesis by simp
next
  case (Cons r rs')
  with assms(3) obtain he se where
    call: "nextCall a = Returned (r, he, se)"
    and r: "r \<noteq> NoRegionAvailable"
    and rest: "enumeration nextCall (Address r + Size r) rs'"
    by (auto split: outcome.splits)
  from enumerator_spans [OF assms(1,2) call r]
  obtain l where l: "l \<in> set ls" and ends: "Address r + Size r = endOf sp pl l"
    and nonempty: "Address r < Address r + Size r"
    by (auto simp: spansRecords_def)
  from rest ends have "enumeration nextCall (endOf sp pl l) rs'"
    by simp
  from enumeration_from_record_end [OF assms(1,2) l this] ends nonempty Cons
  show ?thesis
    by simp
qed

text \<open>
  Claim C5. The listing is sorted: its records are non-empty ranges, each at or above the
  end of the one before. Then in every enumeration by either enumerator (the regions that
  successive calls return up to the first sentinel, each call after the first at the end
  address of the region before), a region returned earlier has a strictly smaller base
  address than one returned later, and their half-open intervals
  \<open>[Address, Address + Size)\<close> are disjoint.
\<close>

theorem enumerated_regions_increase_and_are_disjoint:
  assumes "sortedListing splitEntry parseLimits 0 lines"
    and "nextCall = nextMemoryRegion splitEntry parseLimits (Inr (lines, scanErr))
         \<or> nextCall = nextReadableMemoryRegion splitEntry parseLimits (Inr (lines, scanErr))"
    and "enumeration nextCall address rs"
    and "i < j" and "j < length rs"
  shows "Address (rs ! i) < Address (rs ! j)
       \<and> {unat (Address (rs ! i)) ..< unat (Address (rs ! i)) + unat (Size (rs ! i))}
           \<inter> {unat (Address (rs ! j)) ..< unat (Address (rs ! j)) + unat (Size (rs ! j))}
         = {}"
proof -
  from enumeration_sorted [OF assms(1,2,3)]
  have sorted: "sorted_wrt (\<lambda>r r'. Address r + Size r \<le> Address r') rs"
    and each: "\<forall>r\<in>set rs. Address r < Address r + Size r"
    by simp_all
  from sorted_wrt_nth_less [OF sorted assms(4,5)]
  have below: "Address (rs ! i) + Size (rs ! i) \<le> Address (rs ! j)" .
  from assms(4,5) each have nonempty: "Address (rs ! i) < Address (rs ! i) + Size (rs ! i)"
    by simp
  then have "Address (rs ! i) \<le> Address (rs ! i) + Size (rs ! i)"
    by simp
  then have "unat (Address (rs ! i) + Size (rs ! i))
               = unat (Address (rs ! i)) + unat (Size (rs ! i))"
    by (rule unat_plus_simple [THEN iffD1])
  with below have "unat (Address (rs ! i)) + unat (Size (rs ! i)) \<le> unat (Address (rs ! j))"
    by (simp add: word_le_nat_alt)
  moreover from nonempty below have "Address (rs ! i) < Address (rs ! j)"
    by simp
  ultimately show ?thesis
    by auto
qed

theorem enumerated_regions_increase_and_are_disjoint_witness:
  "sortedListing SplitMapsFileEntry ParseMapsFileMemoryLimits 0
     [''1000-2000 r-xp 00000000 08:01 1311 /bin/cat'',
      ''2000-3000 rw-p 00001000 08:01 1311 /bin/cat'',
      ''3000-4000 ---p 00000000 00:00 0 '',
      ''5000-6000 rw-p 00000000 00:00 0 [heap]'']
   \<and> enumeration
        (nextReadableMemoryRegion SplitMapsFileEntry ParseMapsFileMemoryLimits
          (Inr ([''1000-2000 r-xp 00000000 08:01 1311 /bin/cat'',
                 ''2000-3000 rw-p 00001000 08:01 1311 /bin/cat'',
                 ''3000-4000 ---p 00000000 00:00 0 '',
                 ''5000-6000 rw-p 00000000 00:00 0 [heap]''], None))) 0
        [\<lparr>Address = 0x1000, Size = 0x2000, Access = 0, Kind = ''''\<rparr>,
         \<lparr>Address = 0x5000, Size = 0x1000, Access = 0, Kind = ''''\<rparr>]
   \<and> (0x1000 :: uintptr) < 0x5000
   \<and> {unat (0x1000 :: uintptr) ..< unat (0x1000 :: uintptr) + unat (0x2000 :: uint)}
       \<inter> {unat (0x5000 :: uintptr) ..< unat (0x5000 :: uintptr) + unat (0x1000 :: uint)} = {}"
proof -
  let ?lines = "[''1000-2000 r-xp 00000000 08:01 1311 /bin/cat'',
      ''2000-3000 rw-p 00001000 08:01 1311 /bin/cat'',
      ''3000-4000 ---p 00000000 00:00 0 '',
      ''5000-6000 rw-p 00000000 00:00 0 [heap]'']"
  let ?rs = "[\<lparr>Address = 0x1000, Size = 0x2000, Access = 0, Kind = ''''\<rparr>,
      \<lparr>Address = 0x5000, Size = 0x1000, Access = 0, Kind = ''''\<rparr>]"
  have sorted: "sortedListing SplitMapsFileEntry ParseMapsFileMemoryLimits 0 ?lines"
    by (simp add: sample_records record_defs)
  have enum: "enumeration
      (nextReadableMemoryRegion SplitMapsFileEntry ParseMapsFileMemoryLimits
        (Inr (?lines, None))) 0 ?rs"
    by (simp add: nextReadableMemoryRegion_def sample_records zeroRegion_def
        NoRegionAvailable_def)
  have "(0::nat) < 1" and "1 < length ?rs"
    by simp_all
  from enumerated_regions_increase_and_are_disjoint [OF sorted _ enum this, of None]
  have "Address (?rs ! 0) < Address (?rs ! 1)
       \<and> {unat (Address (?rs ! 0)) ..< unat (Address (?rs ! 0)) + unat (Size (?rs ! 0))}
           \<inter> {unat (Address (?rs ! 1)) ..< unat (Address (?rs ! 1)) + unat (Size (?rs ! 1))}
         = {}"
    by simp
  then have "(0x1000 :: uintptr) < 0x5000
       \<and> {unat (0x1000 :: uintptr) ..< unat (0x1000 :: uintptr) + unat (0x2000 :: uint)}
           \<inter> {unat (0x5000 :: uintptr) ..< unat (0x5000 :: uintptr) + unat (0x1000 :: uint)}
         = {}"
    by (simp only: nth_Cons_0 nth_Cons_Suc One_nat_def MemoryRegion.simps)
  with sorted enum show ?thesis
    by (simp only: simp_thms)
qed

end
